theory Spec2Isabelle
  imports Complex_Main
begin

section \<open>The serial link of pi\_ADC.py\<close>

text \<open>
  The script bit-bangs a clock line (\<open>clockPin\<close>) and samples a data line (\<open>sdoPin\<close>).
  Both carry one of the two GPIO levels; \<open>GPIO.LOW\<close> is the integer 0 and
  \<open>GPIO.HIGH\<close> the integer 1, and \<open>GPIO.input\<close> returns one of the two.
\<close>

datatype level = LOW | HIGH

fun lvl :: "level \<Rightarrow> nat" where
  "lvl LOW = 0"
| "lvl HIGH = 1"

text \<open>
  Every access to the two lines is an event: a level commanded on the clock line by
  \<open>GPIO.output(clockPin, l)\<close>, or a level returned by \<open>GPIO.input(sdoPin)\<close>.
  The events are kept oldest first.
\<close>

datatype event = Clock level | Sample level

text \<open>
  The converter shifts its next bit onto the data line each time the clock is driven low.
  Its output is a stream of levels: after the clock has been driven low \<open>k + 1\<close> times the
  data line carries bit \<open>k\<close> of the stream. Before the first pulse the pulled-up line
  reads high.
\<close>

type_synonym bitstream = "nat \<Rightarrow> level"

definition shifted :: "event list \<Rightarrow> nat" where
  "shifted tr = length (filter (\<lambda>e. e = Clock LOW) tr)"

definition sdo :: "bitstream \<Rightarrow> event list \<Rightarrow> level" where
  "sdo bits tr = (case shifted tr of 0 \<Rightarrow> HIGH | Suc k \<Rightarrow> bits k)"

fun last_clock :: "event list \<Rightarrow> level option" where
  "last_clock [] = None"
| "last_clock (Clock l # tr) = (case last_clock tr of None \<Rightarrow> Some l | Some l' \<Rightarrow> Some l')"
| "last_clock (Sample l # tr) = last_clock tr"

text \<open>A finite test stream; past its end the pulled-up data line reads high.\<close>

definition stream_of :: "level list \<Rightarrow> bitstream" where
  "stream_of xs n = (if n < length xs then xs ! n else HIGH)"

text \<open>
  Python values, as far as the script binds them to names or formats them: strings,
  floats, ints, and opaque objects (modules, functions, the file handle).
\<close>

datatype pyval = PyStr string | PyFloat real | PyInt int | PyObj

datatype py_error = IndexError | NameError string | TypeError | ValueError

text \<open>
  What the script prints, and the state it acts on. A line of the output file is the pair of
  arguments given to the format \<open>"%s %f\n"\<close>: any value for \<open>%s\<close> and a number for
  \<open>%f\<close>. The file records the lines appended by this run, oldest first.
\<close>

datatype out = Starting_ADC | ADC_started | Millivolts real | Done

record world =
  gpio :: "event list"
  ADC_file :: "(pyval \<times> real) list"
  file_closed :: bool
  stdout :: "out list"

text \<open>A raised exception leaves the state as it is at the raise.\<close>

type_synonym 'a result = "(py_error \<times> world) + 'a"

text \<open>
  The constants at the top of the script (lines 19 to 22). Python's floats are IEEE
  doubles; they are modelled as real numbers, and the arithmetic of lines 88 and 91 as
  exact arithmetic. The two agree as long as no operation rounds or overflows, which the
  predicate \<open>exact_doubles\<close> below secures; outside it the doubles round (from 54
  bits of resolution on) and from resolution 1024 on \<open>2.0 ** resolution\<close> raises
  \<open>OverflowError\<close>, which this model does not follow.
\<close>

record config =
  vref :: real
  resolution :: nat
  offset :: real
  threshold :: real

definition defaults :: config where
  "defaults = \<lparr>vref = 3300, resolution = 12, offset = 0, threshold = 200\<rparr>"


definition GPIO_output :: "level \<Rightarrow> world \<Rightarrow> world" where
  "GPIO_output l w = w\<lparr>gpio := gpio w @ [Clock l]\<rparr>"

definition GPIO_input :: "bitstream \<Rightarrow> world \<Rightarrow> level \<times> world" where
  "GPIO_input bits w = (let v = sdo bits (gpio w) in (v, w\<lparr>gpio := gpio w @ [Sample v]\<rparr>))"

definition print :: "out \<Rightarrow> world \<Rightarrow> world" where
  "print x w = w\<lparr>stdout := stdout w @ [x]\<rparr>"

text \<open>\<open>ADC_file.write\<close>: writing to a closed file raises \<open>ValueError\<close>.\<close>

definition ADC_file_write :: "pyval \<times> real \<Rightarrow> world \<Rightarrow> world result" where
  "ADC_file_write line w =
     (if file_closed w then Inl (ValueError, w) else Inr (w\<lparr>ADC_file := ADC_file w @ [line]\<rparr>))"

text \<open>\<open>ADC_file.close()\<close>: closing a closed file does nothing.\<close>

definition ADC_file_close :: "world \<Rightarrow> world" where
  "ADC_file_close w = w\<lparr>file_closed := True\<rparr>"

section \<open>waitForData\<close>

text \<open>
  The body of \<open>for _i in range(3)\<close> (lines 67 to 71): one clock pulse, one sample, and
  the flag is cleared when the sample is high. The loop has no \<open>break\<close>.
\<close>

definition confirm_step :: "bitstream \<Rightarrow> bool \<times> world \<Rightarrow> bool \<times> world" where
  "confirm_step bits = (\<lambda>(dataDetected, w).
     (let w1 = GPIO_output LOW w;
          w2 = GPIO_output HIGH w1;
          (v, w3) = GPIO_input bits w2
      in if v = HIGH then (False, w3) else (dataDetected, w3)))"

text \<open>
  The \<open>while not dataDetected\<close> loop (lines 59 to 71). It may run forever, and then
  the value is \<open>None\<close>.
\<close>

partial_function (option) while_not_dataDetected :: "bitstream \<Rightarrow> bool \<Rightarrow> world \<Rightarrow> world option" where
  "while_not_dataDetected bits dataDetected w =
     (if dataDetected then Some w
      else
        (let w1 = GPIO_output LOW w;
             w2 = GPIO_output HIGH w1;
             (v, w3) = GPIO_input bits w2
         in if v = LOW
            then (let (dataDetected', w4) = (confirm_step bits ^^ 3) (True, w3)
                  in while_not_dataDetected bits dataDetected' w4)
            else while_not_dataDetected bits dataDetected w3))"

definition waitForData :: "bitstream \<Rightarrow> world \<Rightarrow> world option" where
  "waitForData bits w = while_not_dataDetected bits False w"

section \<open>startADC\<close>

text \<open>The body of \<open>for _i in range(20)\<close> (lines 49 to 51): a clock pulse and no sample.\<close>

definition flush_step :: "world \<Rightarrow> world" where
  "flush_step w = GPIO_output HIGH (GPIO_output LOW w)"

definition startADC :: "bitstream \<Rightarrow> world \<Rightarrow> world option" where
  "startADC bits w =
     (case waitForData bits (print Starting_ADC w) of
        None \<Rightarrow> None
      | Some w1 \<Rightarrow> Some (print ADC_started ((flush_step ^^ 20) w1)))"

section \<open>readADC\<close>

text \<open>
  Lines 79 to 83. \<open>validDataList\<close> starts as \<open>[0, 1, ..., resolution - 1]\<close> and the loop
  \<open>for i in validDataList\<close> runs over that same list while its body stores into it: the
  iterator is at position \<open>k\<close>, stops when \<open>k\<close> reaches the length, and \<open>i\<close> is the element
  found at \<open>k\<close> at that moment. A store outside the list raises \<open>IndexError\<close>.
\<close>

function read_loop :: "bitstream \<Rightarrow> nat \<Rightarrow> nat list \<Rightarrow> world \<Rightarrow> (nat list \<times> world) result" where
  "read_loop bits k validDataList w =
     (if k < length validDataList
      then (let i = validDataList ! k;
                w1 = GPIO_output LOW w;
                w2 = GPIO_output HIGH w1;
                (v, w3) = GPIO_input bits w2
            in if i < length validDataList
               then read_loop bits (Suc k) (validDataList[i := lvl v]) w3
               else Inl (IndexError, w3))
      else Inr (validDataList, w))"
  by pat_completeness auto
termination
  by (relation "measure (\<lambda>(bits, k, validDataList, w). length validDataList - k)") auto

declare read_loop.simps [simp del]

text \<open>
  Lines 86 to 88: \<open>validData += validDataList[i]*(2**(resolution-i-1.0))\<close> for
  \<open>i\<close> in \<open>range(resolution)\<close>. The exponent is a float that is a whole number and not
  negative, since \<open>i < resolution\<close>. A read outside the list raises \<open>IndexError\<close>.
  \<open>W\<close> stands for the constant \<open>resolution\<close>. The sum is the exact one: it is the
  sum of the doubles for \<open>W \<le> 53\<close>, where every partial sum is a whole number below
  \<open>2 ^ 53\<close>.
\<close>

definition add_weighted :: "nat \<Rightarrow> nat list \<Rightarrow> nat \<Rightarrow> py_error + real \<Rightarrow> py_error + real" where
  "add_weighted W validDataList i acc =
     (case acc of
        Inl e \<Rightarrow> Inl e
      | Inr validData \<Rightarrow>
          if i < length validDataList
          then Inr (validData + real (validDataList ! i) * 2 ^ (W - i - 1))
          else Inl IndexError)"

definition to_number :: "nat \<Rightarrow> nat list \<Rightarrow> py_error + real" where
  "to_number W validDataList = fold (add_weighted W validDataList) [0..<W] (Inr 0)"

text \<open>
  Line 91: \<open>(validData / (2.0 ** (resolution))) * vref + offset\<close>, as exact arithmetic;
  it is the arithmetic of the doubles at the configurations of \<open>exact_doubles\<close>.
\<close>

definition toVoltage :: "config \<Rightarrow> real \<Rightarrow> real" where
  "toVoltage cfg validData = (validData / 2 ^ resolution cfg) * vref cfg + offset cfg"

text \<open>
  Lines 93 to 99. \<open>now\<close> is the string that \<open>datetime.now().strftime\<close> returns.
\<close>

definition record_sample :: "config \<Rightarrow> string \<Rightarrow> real \<Rightarrow> world \<Rightarrow> world result" where
  "record_sample cfg now validData w =
     (let dt_string = now
      in if validData > threshold cfg
         then ADC_file_write (PyStr dt_string, validData) (print (Millivolts validData) w)
         else Inr w)"

text \<open>
  The whole of \<open>readADC\<close>. Its variables \<open>validDataList\<close>, \<open>validData\<close> and
  \<open>dt_string\<close> are local: nothing of them is left when it returns.
\<close>

definition readADC :: "config \<Rightarrow> bitstream \<Rightarrow> string \<Rightarrow> world \<Rightarrow> world result option" where
  "readADC cfg bits now w =
     (case waitForData bits w of
        None \<Rightarrow> None
      | Some w1 \<Rightarrow>
          Some (case read_loop bits 0 [0..<resolution cfg] w1 of
                  Inl e \<Rightarrow> Inl e
                | Inr (validDataList, w2) \<Rightarrow>
                    (case to_number (resolution cfg) validDataList of
                       Inl e \<Rightarrow> Inl (e, w2)
                     | Inr validData \<Rightarrow> record_sample cfg now (toVoltage cfg validData) w2)))"

section \<open>main\<close>

text \<open>
  The names bound at module level when \<open>main\<close> runs: the imports, the constants, the pin
  numbers, the file and the four functions. No function of the script declares a name
  \<open>global\<close>, so this namespace never changes.
\<close>

definition module_globals :: "string \<rightharpoonup> pyval" where
  "module_globals = map_of
     [(''time'', PyObj), (''GPIO'', PyObj), (''datetime'', PyObj),
      (''vref'', PyInt 3300), (''resolution'', PyInt 12), (''offset'', PyInt 0),
      (''threshold'', PyInt 200), (''sleepTime'', PyFloat 0.003),
      (''clockPin'', PyInt 31), (''sdoPin'', PyInt 33), (''holdPin'', PyInt 29),
      (''ADC_file'', PyObj),
      (''startADC'', PyObj), (''waitForData'', PyObj), (''readADC'', PyObj), (''main'', PyObj)]"

text \<open>
  Reading a name in \<open>main\<close> that \<open>main\<close> never assigns looks it up in the module
  namespace and raises \<open>NameError\<close> when it is not there.
\<close>

definition load_global :: "(string \<rightharpoonup> pyval) \<Rightarrow> string \<Rightarrow> world \<Rightarrow> pyval result" where
  "load_global globals name w =
     (case globals name of None \<Rightarrow> Inl (NameError name, w) | Some v \<Rightarrow> Inr v)"

text \<open>The conversion \<open>%f\<close> takes a number and raises \<open>TypeError\<close> on anything else.\<close>

fun percent_f :: "pyval \<Rightarrow> real option" where
  "percent_f (PyFloat x) = Some x"
| "percent_f (PyInt n) = Some (real_of_int n)"
| "percent_f _ = None"

text \<open>
  The \<open>except\<close> block (lines 111 to 114): the tuple \<open>(dt_string, validData)\<close> is
  evaluated left to right, formatted, written; then the file is closed and \<open>Done\<close> is
  printed.
\<close>

definition except_handler :: "(string \<rightharpoonup> pyval) \<Rightarrow> world \<Rightarrow> world result" where
  "except_handler globals w =
     (case load_global globals ''dt_string'' w of
        Inl e \<Rightarrow> Inl e
      | Inr dt_string \<Rightarrow>
          (case load_global globals ''validData'' w of
             Inl e \<Rightarrow> Inl e
           | Inr validData \<Rightarrow>
               (case percent_f validData of
                  None \<Rightarrow> Inl (TypeError, w)
                | Some x \<Rightarrow>
                    (case ADC_file_write (dt_string, x) w of
                       Inl e \<Rightarrow> Inl e
                     | Inr w1 \<Rightarrow> Inr (print Done (ADC_file_close w1))))))"

text \<open>
  \<open>while True\<close> (lines 107 to 109) has no exit of its own. \<open>n\<close> passes of its body are
  run here; pass \<open>k\<close> reads the time \<open>clock k\<close>. \<open>time.sleep\<close> changes nothing.
\<close>

fun passes :: "config \<Rightarrow> bitstream \<Rightarrow> (nat \<Rightarrow> string) \<Rightarrow> nat \<Rightarrow> nat \<Rightarrow> world \<Rightarrow> world result option" where
  "passes cfg bits clock 0 k w = Some (Inr w)"
| "passes cfg bits clock (Suc n) k w =
     (case readADC cfg bits (clock k) w of
        None \<Rightarrow> None
      | Some (Inl e) \<Rightarrow> Some (Inl e)
      | Some (Inr w1) \<Rightarrow> passes cfg bits clock n (Suc k) w1)"

text \<open>
  \<open>main\<close>, for a run in which the loop is interrupted after \<open>n\<close> whole passes (or in which
  a pass raises before that): \<open>startADC\<close> outside the \<open>try\<close>, the passes, then the
  \<open>except\<close> block on the state at the raise.
\<close>

definition main :: "config \<Rightarrow> bitstream \<Rightarrow> (nat \<Rightarrow> string) \<Rightarrow> nat \<Rightarrow> world \<Rightarrow> world result option" where
  "main cfg bits clock n w =
     (case startADC bits w of
        None \<Rightarrow> None
      | Some w1 \<Rightarrow>
          (case passes cfg bits clock n 0 w1 of
             None \<Rightarrow> None
           | Some (Inl (e, w2)) \<Rightarrow> Some (except_handler module_globals w2)
           | Some (Inr w2) \<Rightarrow> Some (except_handler module_globals w2)))"

text \<open>The state when the script starts: no line event yet, the file open.\<close>

definition start :: world where
  "start = \<lparr>gpio = [], ADC_file = [], file_closed = False, stdout = []\<rparr>"

section \<open>Notions used to state the properties\<close>

text \<open>
  \<open>frame bits p n\<close> is the event sequence of \<open>n\<close> clock pulses, each followed by one sample
  of the data line, when \<open>p\<close> bits have been shifted out before: the samples return the bits
  \<open>p, ..., p + n - 1\<close> of the stream.
\<close>

definition frame :: "bitstream \<Rightarrow> nat \<Rightarrow> nat \<Rightarrow> event list" where
  "frame bits p n = concat (map (\<lambda>i. [Clock LOW, Clock HIGH, Sample (bits i)]) [p..<p + n])"

definition clocked :: "bitstream \<Rightarrow> nat \<Rightarrow> world \<Rightarrow> world" where
  "clocked bits n w = w\<lparr>gpio := gpio w @ frame bits (shifted (gpio w)) n\<rparr>"

text \<open>The framing marker: four low bits from position \<open>p\<close> on.\<close>

definition marker :: "bitstream \<Rightarrow> nat \<Rightarrow> bool" where
  "marker bits p \<longleftrightarrow> bits p = LOW \<and> bits (p + 1) = LOW \<and> bits (p + 2) = LOW \<and> bits (p + 3) = LOW"

text \<open>\<open>n\<close> clock pulses with no sample.\<close>

definition burst :: "nat \<Rightarrow> event list" where
  "burst n = concat (replicate n [Clock LOW, Clock HIGH])"

text \<open>
  The value of the specification for the \<open>W\<close> bits from position \<open>p\<close> on, the first
  one most significant.
\<close>

definition raw_sample :: "bitstream \<Rightarrow> nat \<Rightarrow> nat \<Rightarrow> real" where
  "raw_sample bits p W = (\<Sum>i<W. real (lvl (bits (p + i))) * 2 ^ (W - 1 - i))"

text \<open>
  The encoding of the specification: the \<open>W\<close> binary digits of \<open>raw\<close>, most significant
  first.
\<close>

definition msb_first :: "nat \<Rightarrow> nat \<Rightarrow> nat list" where
  "msb_first W raw = map (\<lambda>i. (raw div 2 ^ (W - 1 - i)) mod 2) [0..<W]"

section \<open>Clock pulses and samples\<close>

lemma shifted_append: "shifted (xs @ ys) = shifted xs + shifted ys"
  by (simp add: shifted_def)

lemma frame_0: "frame bits p 0 = []"
  by (simp add: frame_def)

lemma frame_Suc: "frame bits p (Suc n) = frame bits p n @ [Clock LOW, Clock HIGH, Sample (bits (p + n))]"
  by (simp add: frame_def)

lemma frame_add: "frame bits p (m + n) = frame bits p m @ frame bits (p + m) n"
  by (induction n) (simp_all add: frame_0 frame_Suc add.assoc)

lemma shifted_frame: "shifted (frame bits p n) = n"
  by (induction n) (simp_all add: frame_0 frame_Suc shifted_append, simp_all add: shifted_def)

lemma clocked_0: "clocked bits 0 w = w"
  by (simp add: clocked_def frame_0)

lemma clocked_clocked: "clocked bits n (clocked bits m w) = clocked bits (m + n) w"
  by (simp add: clocked_def frame_add shifted_append shifted_frame)

lemma shifted_clocked: "shifted (gpio (clocked bits n w)) = shifted (gpio w) + n"
  by (simp add: clocked_def shifted_append shifted_frame)

lemma pulse_sample:
  "GPIO_input bits (GPIO_output HIGH (GPIO_output LOW w)) = (bits (shifted (gpio w)), clocked bits 1 w)"
  by (simp add: GPIO_input_def GPIO_output_def sdo_def shifted_append clocked_def frame_def Let_def)
     (simp add: shifted_def)

lemma confirm_step_eq:
  "confirm_step bits (d, w) = (d \<and> bits (shifted (gpio w)) = LOW, clocked bits 1 w)"
  by (cases "bits (shifted (gpio w))") (simp_all add: confirm_step_def pulse_sample Let_def)

lemma confirm_steps_eq:
  "(confirm_step bits ^^ k) (d, w) =
     (d \<and> (\<forall>i<k. bits (shifted (gpio w) + i) = LOW), clocked bits k w)"
proof (induction k)
  case 0
  show ?case by (simp add: clocked_0)
next
  case (Suc k)
  show ?case
    by (auto simp: Suc confirm_step_eq clocked_clocked shifted_clocked less_Suc_eq)
qed

lemma while_done: "while_not_dataDetected bits True w = Some w"
  by (subst while_not_dataDetected.simps) simp

lemma while_flag:
  "while_not_dataDetected bits d w = (if d then Some w else while_not_dataDetected bits False w)"
  by (cases d) (simp_all add: while_done)

lemma window_marker:
  "bits p = LOW \<Longrightarrow> (\<forall>i<3. bits (Suc (p + i)) = LOW) \<longleftrightarrow> marker bits p"
  by (auto simp: marker_def less_Suc_eq numeral_3_eq_3)

lemma while_unfold:
  "while_not_dataDetected bits False w =
     (if bits (shifted (gpio w)) = LOW
      then (if marker bits (shifted (gpio w)) then Some (clocked bits 4 w)
            else while_not_dataDetected bits False (clocked bits 4 w))
      else while_not_dataDetected bits False (clocked bits 1 w))"
proof (cases "bits (shifted (gpio w)) = LOW")
  case True
  have "while_not_dataDetected bits False w =
      while_not_dataDetected bits (\<forall>i<3. bits (Suc (shifted (gpio w) + i)) = LOW) (clocked bits 4 w)"
    by (subst while_not_dataDetected.simps)
       (simp add: True pulse_sample Let_def confirm_steps_eq clocked_clocked shifted_clocked
          del: funpow.simps)
  also have "\<dots> = (if marker bits (shifted (gpio w)) then Some (clocked bits 4 w)
            else while_not_dataDetected bits False (clocked bits 4 w))"
    unfolding window_marker [of bits "shifted (gpio w)", OF True] by (rule while_flag)
  finally show ?thesis
    by (simp add: True)
next
  case False
  have "while_not_dataDetected bits False w = while_not_dataDetected bits False (clocked bits 1 w)"
    by (subst while_not_dataDetected.simps) (simp add: False pulse_sample Let_def)
  then show ?thesis
    by (simp add: False)
qed

lemma while_skip:
  "bits (shifted (gpio w)) = HIGH \<Longrightarrow>
   while_not_dataDetected bits False w = while_not_dataDetected bits False (clocked bits 1 w)"
  by (subst while_unfold) simp

lemma while_fail:
  "bits (shifted (gpio w)) = LOW \<Longrightarrow> \<not> marker bits (shifted (gpio w)) \<Longrightarrow>
   while_not_dataDetected bits False w = while_not_dataDetected bits False (clocked bits 4 w)"
  by (subst while_unfold) simp

lemma while_hit:
  "marker bits (shifted (gpio w)) \<Longrightarrow> while_not_dataDetected bits False w = Some (clocked bits 4 w)"
  by (subst while_unfold) (simp add: marker_def)

lemma shifted_start: "shifted (gpio start) = 0"
  by (simp add: start_def shifted_def)


lemma clocked_start: "clocked bits n start = start\<lparr>gpio := frame bits 0 n\<rparr>"
  by (simp add: clocked_def start_def shifted_def)


section \<open>The loop of waitForData\<close>

lemma while_returns:
  assumes "while_not_dataDetected bits d w = Some w'"
  shows "if d then w' = w
         else (\<exists>n\<ge>4. w' = clocked bits n w \<and> marker bits (shifted (gpio w) + n - 4))"
proof (rule while_not_dataDetected.raw_induct
    [where P = "\<lambda>bits d w w'. if d then w' = w
       else (\<exists>n\<ge>4. w' = clocked bits n w \<and> marker bits (shifted (gpio w) + n - 4))",
     OF _ assms], goal_cases)
  case (1 f bits d w w')
  note IH = "1"(1) and body = "1"(2)
  show ?case
  proof (cases d)
    case True
    with body show ?thesis by simp
  next
    case False
    let ?p = "shifted (gpio w)"
    show ?thesis
    proof (cases "bits ?p = LOW")
      case low: True
      let ?d = "\<forall>i<3. bits (Suc (?p + i)) = LOW"
      from body False low have call: "f bits ?d (clocked bits 4 w) = Some w'"
        by (simp add: pulse_sample Let_def confirm_steps_eq clocked_clocked shifted_clocked
            del: funpow.simps)
      show ?thesis
      proof (cases ?d)
        case True
        with IH [OF call] have "w' = clocked bits 4 w" by simp
        moreover from True low have "marker bits ?p"
          by (simp only: window_marker)
        ultimately show ?thesis using False
          by (intro if_not_P [THEN iffD2]) auto
      next
        case nd: False
        with IH [OF call] obtain n where n: "4 \<le> n" "w' = clocked bits n (clocked bits 4 w)"
          "marker bits (shifted (gpio (clocked bits 4 w)) + n - 4)"
          by auto
        then have "4 \<le> 4 + n \<and> w' = clocked bits (4 + n) w \<and> marker bits (?p + (4 + n) - 4)"
          by (simp add: clocked_clocked shifted_clocked add.assoc)
        then show ?thesis using False by metis
      qed
    next
      case high: False
      from body False high have call: "f bits False (clocked bits 1 w) = Some w'"
        by (simp add: pulse_sample Let_def)
      with IH [OF call] obtain n where n: "4 \<le> n" "w' = clocked bits n (clocked bits 1 w)"
          "marker bits (shifted (gpio (clocked bits 1 w)) + n - 4)"
        by auto
      then have "4 \<le> 1 + n \<and> w' = clocked bits (1 + n) w \<and> marker bits (?p + (1 + n) - 4)"
        by (simp add: clocked_clocked shifted_clocked add.assoc)
      then show ?thesis using False by metis
    qed
  qed
qed

lemma while_terminates:
  assumes "\<forall>n\<ge>N. bits n = LOW"
  shows "\<exists>w'. while_not_dataDetected bits False w = Some w'"
proof (induction "N - shifted (gpio w)" arbitrary: w rule: less_induct)
  case less
  let ?p = "shifted (gpio w)"
  show ?case
  proof (cases "marker bits ?p")
    case True
    then show ?thesis
      by (subst while_unfold) (simp add: marker_def)
  next
    case False
    with assms have "?p < N"
      by (auto simp: marker_def not_le [symmetric])
    then have "N - shifted (gpio (clocked bits 4 w)) < N - ?p"
      and "N - shifted (gpio (clocked bits 1 w)) < N - ?p"
      by (simp_all add: shifted_clocked)
    then have "\<exists>w'. while_not_dataDetected bits False (clocked bits 4 w) = Some w'"
      and "\<exists>w'. while_not_dataDetected bits False (clocked bits 1 w) = Some w'"
      by (auto intro: less)
    with False show ?thesis
      by (subst while_unfold) simp
  qed
qed

lemma while_never_returns_aux:
  assumes "while_not_dataDetected bits d w = Some w'"
  shows "(\<forall>n. bits n = HIGH) \<longrightarrow> d"
proof (rule while_not_dataDetected.raw_induct
    [where P = "\<lambda>bits d w w'. (\<forall>n. bits n = HIGH) \<longrightarrow> d", OF _ assms], goal_cases)
  case (1 f bits d w w')
  note IH = "1"(1) and body = "1"(2)
  show ?case
  proof (intro impI)
    assume high: "\<forall>n. bits n = HIGH"
    show d
    proof (rule ccontr)
      assume "\<not> d"
      with body high have "f bits False (clocked bits 1 w) = Some w'"
        by (simp add: pulse_sample Let_def)
      from IH [OF this] high show False by simp
    qed
  qed
qed

lemma while_idle_forever: "while_not_dataDetected (\<lambda>_. HIGH) False w = None"
proof (cases "while_not_dataDetected (\<lambda>_. HIGH) False w")
  case (Some w')
  from while_never_returns_aux [OF this] show ?thesis by simp
qed simp

section \<open>Frame synchronisation\<close>

text \<open>
  C1. A pass of the loop keeps no count: after a high bit \<open>waitForData\<close> goes on as
  \<open>waitForData\<close> itself from the state reached, and it returns at once only on four low
  bits. When it returns it has clocked out and sampled some \<open>n \<ge> 4\<close> bits of the stream,
  one per pulse, and the last four of them are low: it returns only after four consecutive
  zeros with no 1 between them. Every 1 it has observed lies before these four bits, so no
  zero seen before a 1 is counted. On the stream 1,0,0,0,1,0,0,0,0 it returns after the
  ninth bit, not on the first three zeros.
\<close>

theorem waitForData_marker:
  "waitForData bits w =
     (if bits (shifted (gpio w)) = HIGH then waitForData bits (clocked bits 1 w)
      else if marker bits (shifted (gpio w)) then Some (clocked bits 4 w)
      else waitForData bits (clocked bits 4 w))
   \<and> (\<forall>w'. waitForData bits w = Some w' \<longrightarrow>
         (\<exists>n\<ge>4. w' = clocked bits n w
            \<and> marker bits (shifted (gpio w) + n - 4)
            \<and> (\<forall>j<n. bits (shifted (gpio w) + j) = HIGH \<longrightarrow> j + 4 < n)))"
proof (intro conjI allI impI)
  show "waitForData bits w =
     (if bits (shifted (gpio w)) = HIGH then waitForData bits (clocked bits 1 w)
      else if marker bits (shifted (gpio w)) then Some (clocked bits 4 w)
      else waitForData bits (clocked bits 4 w))"
    unfolding waitForData_def
    by (subst while_unfold) (cases "bits (shifted (gpio w))", simp_all)
next
  fix w'
  assume ret: "waitForData bits w = Some w'"
  from while_returns [OF ret [unfolded waitForData_def]]
  obtain n where n: "4 \<le> n" "w' = clocked bits n w" "marker bits (shifted (gpio w) + n - 4)"
    by auto
  have "j + 4 < n" if "j < n" "bits (shifted (gpio w) + j) = HIGH" for j
  proof (rule ccontr)
    assume "\<not> j + 4 < n"
    with that n(1) have "j = n - 4 \<or> j = n - 4 + 1 \<or> j = n - 4 + 2 \<or> j = n - 4 + 3"
      by arith
    with n(1,3) have "bits (shifted (gpio w) + j) = LOW"
      by (auto simp: marker_def add.assoc)
    with that show False by simp
  qed
  with n show "\<exists>n\<ge>4. w' = clocked bits n w
            \<and> marker bits (shifted (gpio w) + n - 4)
            \<and> (\<forall>j<n. bits (shifted (gpio w) + j) = HIGH \<longrightarrow> j + 4 < n)"
    by blast
qed

theorem waitForData_marker_witness:
  "waitForData (stream_of [HIGH, LOW, LOW, LOW, HIGH, LOW, LOW, LOW, LOW]) start
     = Some (clocked (stream_of [HIGH, LOW, LOW, LOW, HIGH, LOW, LOW, LOW, LOW]) 9 start)
   \<and> (\<exists>n\<ge>4. clocked (stream_of [HIGH, LOW, LOW, LOW, HIGH, LOW, LOW, LOW, LOW]) 9 start
          = clocked (stream_of [HIGH, LOW, LOW, LOW, HIGH, LOW, LOW, LOW, LOW]) n start
        \<and> marker (stream_of [HIGH, LOW, LOW, LOW, HIGH, LOW, LOW, LOW, LOW])
            (shifted (gpio start) + n - 4)
        \<and> (\<forall>j<n. stream_of [HIGH, LOW, LOW, LOW, HIGH, LOW, LOW, LOW, LOW]
                     (shifted (gpio start) + j) = HIGH \<longrightarrow> j + 4 < n))"
proof -
  have run: "waitForData (stream_of [HIGH, LOW, LOW, LOW, HIGH, LOW, LOW, LOW, LOW]) start
     = Some (clocked (stream_of [HIGH, LOW, LOW, LOW, HIGH, LOW, LOW, LOW, LOW]) 9 start)"
    by (simp add: waitForData_def while_skip while_fail while_hit shifted_clocked shifted_start
        clocked_clocked marker_def stream_of_def)
  from waitForData_marker [of "stream_of [HIGH, LOW, LOW, LOW, HIGH, LOW, LOW, LOW, LOW]" start] run
  show ?thesis
    by blast
qed

text \<open>
  C9. When the first bit of a pass of the loop is low and a high bit follows among the next
  three, \<open>waitForData\<close> goes on exactly as from the state in which all four bits have been
  clocked out and sampled: the rest of the three-bit window is read and dropped. If it
  returns after that, the four low bits it ends on start at least four positions later, so
  no zero of the failed window is among them. And whenever it returns, the last four bits it
  consumed are low.
\<close>

theorem waitForData_failed_window:
  "(bits (shifted (gpio w)) = LOW
      \<and> (bits (shifted (gpio w) + 1) = HIGH \<or> bits (shifted (gpio w) + 2) = HIGH
           \<or> bits (shifted (gpio w) + 3) = HIGH)
    \<longrightarrow> waitForData bits w = waitForData bits (clocked bits 4 w)
        \<and> (\<forall>w'. waitForData bits w = Some w' \<longrightarrow>
              (\<exists>n\<ge>4. w' = clocked bits (4 + n) w \<and> marker bits (shifted (gpio w) + n))))
   \<and> (\<forall>w'. waitForData bits w = Some w' \<longrightarrow>
         (\<exists>n\<ge>4. w' = clocked bits n w \<and> marker bits (shifted (gpio w) + n - 4)))"
proof (intro conjI impI allI)
  assume win: "bits (shifted (gpio w)) = LOW
      \<and> (bits (shifted (gpio w) + 1) = HIGH \<or> bits (shifted (gpio w) + 2) = HIGH
           \<or> bits (shifted (gpio w) + 3) = HIGH)"
  then have nm: "\<not> marker bits (shifted (gpio w))"
    by (auto simp: marker_def)
  with win show step: "waitForData bits w = waitForData bits (clocked bits 4 w)"
    by (simp add: waitForData_def while_fail)
  fix w'
  assume "waitForData bits w = Some w'"
  with step have "while_not_dataDetected bits False (clocked bits 4 w) = Some w'"
    by (simp add: waitForData_def)
  from while_returns [OF this]
  obtain n where "4 \<le> n" "w' = clocked bits n (clocked bits 4 w)"
    "marker bits (shifted (gpio (clocked bits 4 w)) + n - 4)"
    by auto
  then have "4 \<le> n \<and> w' = clocked bits (4 + n) w \<and> marker bits (shifted (gpio w) + n)"
    by (simp add: clocked_clocked shifted_clocked)
  then show "\<exists>n\<ge>4. w' = clocked bits (4 + n) w \<and> marker bits (shifted (gpio w) + n)"
    by blast
next
  fix w'
  assume "waitForData bits w = Some w'"
  from while_returns [OF this [unfolded waitForData_def]]
  show "\<exists>n\<ge>4. w' = clocked bits n w \<and> marker bits (shifted (gpio w) + n - 4)"
    by simp
qed

theorem waitForData_failed_window_witness:
  "stream_of [LOW, HIGH, LOW, LOW, LOW, LOW, LOW, LOW] (shifted (gpio start)) = LOW
   \<and> stream_of [LOW, HIGH, LOW, LOW, LOW, LOW, LOW, LOW] (shifted (gpio start) + 1) = HIGH
   \<and> waitForData (stream_of [LOW, HIGH, LOW, LOW, LOW, LOW, LOW, LOW]) start
       = Some (clocked (stream_of [LOW, HIGH, LOW, LOW, LOW, LOW, LOW, LOW]) 8 start)
   \<and> waitForData (stream_of [LOW, HIGH, LOW, LOW, LOW, LOW, LOW, LOW]) start
       = waitForData (stream_of [LOW, HIGH, LOW, LOW, LOW, LOW, LOW, LOW])
           (clocked (stream_of [LOW, HIGH, LOW, LOW, LOW, LOW, LOW, LOW]) 4 start)
   \<and> (\<exists>n\<ge>4. clocked (stream_of [LOW, HIGH, LOW, LOW, LOW, LOW, LOW, LOW]) 8 start
          = clocked (stream_of [LOW, HIGH, LOW, LOW, LOW, LOW, LOW, LOW]) (4 + n) start
        \<and> marker (stream_of [LOW, HIGH, LOW, LOW, LOW, LOW, LOW, LOW]) (shifted (gpio start) + n))"
proof -
  have run: "waitForData (stream_of [LOW, HIGH, LOW, LOW, LOW, LOW, LOW, LOW]) start
       = Some (clocked (stream_of [LOW, HIGH, LOW, LOW, LOW, LOW, LOW, LOW]) 8 start)"
    by (simp add: waitForData_def while_skip while_fail while_hit shifted_clocked shifted_start
        clocked_clocked marker_def stream_of_def)
  have b0: "stream_of [LOW, HIGH, LOW, LOW, LOW, LOW, LOW, LOW] (shifted (gpio start)) = LOW"
    and b1: "stream_of [LOW, HIGH, LOW, LOW, LOW, LOW, LOW, LOW] (shifted (gpio start) + 1) = HIGH"
    by (simp_all add: shifted_start stream_of_def)
  from waitForData_failed_window
    [of "stream_of [LOW, HIGH, LOW, LOW, LOW, LOW, LOW, LOW]" start] run b0 b1
  show ?thesis
    by simp
qed

text \<open>
  C10. \<open>waitForData\<close> returns on every stream that is low from some position on; it
  returns at once, after four pulses, when the stream is low at the four positions it reads
  first. On the stream that is high for ever, the idle pulled-up line, it never returns.
\<close>

theorem waitForData_termination:
  "((\<exists>N. \<forall>n\<ge>N. bits n = LOW) \<longrightarrow> (\<exists>w'. waitForData bits w = Some w'))
   \<and> (marker bits (shifted (gpio w)) \<longrightarrow> waitForData bits w = Some (clocked bits 4 w))
   \<and> waitForData (\<lambda>_. HIGH) w = None"
  by (auto simp: waitForData_def while_idle_forever while_hit intro: while_terminates)

theorem waitForData_termination_witness:
  "(\<exists>N. \<forall>n\<ge>N. (\<lambda>n::nat. if n < 3 then HIGH else LOW) n = LOW)
   \<and> (\<exists>w'. waitForData (\<lambda>n. if n < 3 then HIGH else LOW) start = Some w')
   \<and> marker (\<lambda>n. LOW) (shifted (gpio start))
   \<and> waitForData (\<lambda>n. LOW) start = Some (clocked (\<lambda>n. LOW) 4 start)"
proof -
  have low: "\<exists>N. \<forall>n\<ge>N. (\<lambda>n::nat. if n < 3 then HIGH else LOW) n = LOW"
    by (rule exI [of _ 3]) simp
  have m: "marker (\<lambda>n. LOW) (shifted (gpio start))"
    by (simp add: marker_def)
  from waitForData_termination [of "\<lambda>n. if n < 3 then HIGH else LOW" start] low
    waitForData_termination [of "\<lambda>n. LOW" start] m
  show ?thesis
    by simp
qed

section \<open>The read loop and the number\<close>

lemma fill_step:
  assumes "k < W"
  shows "(map f [0..<k] @ [k..<W])[k := f k] = map f [0..<Suc k] @ [Suc k..<W]"
proof -
  from assms have "[k..<W] = k # [Suc k..<W]"
    by (simp add: upt_conv_Cons)
  then show ?thesis
    by (simp add: list_update_append)
qed

lemma fill_nth:
  assumes "k < W"
  shows "(map f [0..<k] @ [k..<W]) ! k = k"
  using assms by (simp add: nth_append)

lemma read_loop_fill:
  assumes "shifted (gpio w) = p + k" and "k \<le> W"
  shows "read_loop bits k (map (\<lambda>i. lvl (bits (p + i))) [0..<k] @ [k..<W]) w
         = Inr (map (\<lambda>i. lvl (bits (p + i))) [0..<W], clocked bits (W - k) w)"
  using assms
proof (induction "W - k" arbitrary: k w)
  case 0
  then have "k = W" by simp
  then show ?case
    by (subst read_loop.simps) (simp add: clocked_0)
next
  case (Suc d)
  then have k: "k < W" by simp
  let ?f = "\<lambda>i. lvl (bits (p + i))"
  have next_state: "shifted (gpio (clocked bits 1 w)) = p + Suc k"
    by (simp add: shifted_clocked Suc.prems)
  have "read_loop bits k (map ?f [0..<k] @ [k..<W]) w
      = read_loop bits (Suc k) ((map ?f [0..<k] @ [k..<W])[k := ?f k]) (clocked bits 1 w)"
    using k
    by (subst read_loop.simps)
       (simp add: fill_nth pulse_sample Let_def Suc.prems del: upt_Suc map_append)
  also have "\<dots> = read_loop bits (Suc k) (map ?f [0..<Suc k] @ [Suc k..<W]) (clocked bits 1 w)"
    using fill_step [OF k, of ?f] by (simp only:)
  also have "\<dots> = Inr (map ?f [0..<W], clocked bits (W - Suc k) (clocked bits 1 w))"
    using Suc.hyps(2) k by (intro Suc.hyps(1) next_state) simp_all
  also have "clocked bits (W - Suc k) (clocked bits 1 w) = clocked bits (W - k) w"
    using k by (simp add: clocked_clocked Suc_diff_Suc)
  finally show ?case .
qed

lemma read_loop_bits:
  "read_loop bits 0 [0..<W] w
     = Inr (map (\<lambda>i. lvl (bits (shifted (gpio w) + i))) [0..<W], clocked bits W w)"
  using read_loop_fill [of w "shifted (gpio w)" 0 W bits] by simp

lemma fold_add_weighted:
  assumes "n \<le> length xs"
  shows "fold (add_weighted W xs) [0..<n] (Inr a)
         = Inr (a + (\<Sum>i<n. real (xs ! i) * 2 ^ (W - i - 1)))"
  using assms by (induction n) (simp_all add: add_weighted_def)

lemma to_number_sum:
  assumes "length xs = W"
  shows "to_number W xs = Inr (\<Sum>i<W. real (xs ! i) * 2 ^ (W - i - 1))"
  using fold_add_weighted [of W xs W 0] assms by (simp add: to_number_def)

lemma binary_digits: "(\<Sum>j<W. (raw div 2 ^ j mod 2) * 2 ^ j) = raw mod 2 ^ W" for raw :: nat
proof (induction W)
  case 0
  show ?case by simp
next
  case (Suc W)
  have "raw mod 2 ^ Suc W = 2 ^ W * (raw div 2 ^ W mod 2) + raw mod 2 ^ W"
    using mod_mult2_eq [of raw "2 ^ W" 2] by (simp add: mult.commute)
  with Suc show ?case by (simp add: mult.commute)
qed

lemma msb_first_value:
  assumes "raw < 2 ^ W"
  shows "(\<Sum>i<W. msb_first W raw ! i * 2 ^ (W - i - 1)) = raw"
proof -
  have "(\<Sum>i<W. msb_first W raw ! i * 2 ^ (W - i - 1))
      = (\<Sum>i<W. (raw div 2 ^ (W - Suc i) mod 2) * 2 ^ (W - Suc i))"
    by (rule sum.cong) (simp_all add: msb_first_def)
  also have "\<dots> = (\<Sum>j<W. (raw div 2 ^ j mod 2) * 2 ^ j)"
    by (rule sum.nat_diff_reindex)
  also have "\<dots> = raw"
    using assms by (simp add: binary_digits)
  finally show ?thesis .
qed

lemma to_number_msb_first:
  assumes "raw < 2 ^ W"
  shows "to_number W (msb_first W raw) = Inr (real raw)"
proof -
  have len: "length (msb_first W raw) = W"
    by (simp add: msb_first_def)
  have "(\<Sum>i<W. real (msb_first W raw ! i) * 2 ^ (W - i - 1))
      = real (\<Sum>i<W. msb_first W raw ! i * 2 ^ (W - i - 1))"
    by simp
  with msb_first_value [OF assms] to_number_sum [OF len] show ?thesis
    by simp
qed

lemma to_number_bits:
  "to_number W (map (\<lambda>i. lvl (bits (p + i))) [0..<W]) = Inr (raw_sample bits p W)"
proof -
  have "(\<Sum>i<W. real (map (\<lambda>i. lvl (bits (p + i))) [0..<W] ! i) * 2 ^ (W - i - 1))
      = raw_sample bits p W"
    unfolding raw_sample_def by (rule sum.cong) simp_all
  then show ?thesis
    by (simp add: to_number_sum)
qed

lemma readADC_eq:
  "readADC cfg bits now w =
     map_option (\<lambda>w1. record_sample cfg now
         (toVoltage cfg (raw_sample bits (shifted (gpio w1)) (resolution cfg)))
         (clocked bits (resolution cfg) w1))
       (waitForData bits w)"
  by (cases "waitForData bits w") (simp_all add: readADC_def read_loop_bits to_number_bits)

lemma waitForData_returns:
  assumes "waitForData bits w = Some w'"
  shows "\<exists>n\<ge>4. w' = clocked bits n w \<and> marker bits (shifted (gpio w) + n - 4)"
  using while_returns [OF assms [unfolded waitForData_def]] by simp

lemma clocked_fields [simp]:
  "ADC_file (clocked bits n w) = ADC_file w"
  "file_closed (clocked bits n w) = file_closed w"
  "stdout (clocked bits n w) = stdout w"
  by (simp_all add: clocked_def)

lemma gpio_clocked: "gpio (clocked bits n w) = gpio w @ frame bits (shifted (gpio w)) n"
  by (simp add: clocked_def)

text \<open>
  C5. A pass of \<open>readADC\<close> on an open file ends normally; the sample has been clocked out
  and its voltage computed in either case, and the file gets the line of the time and the
  voltage exactly when the voltage is greater than the threshold. At a voltage equal to the
  threshold or below it the file is left as it was.
\<close>

theorem readADC_threshold:
  assumes "readADC cfg bits now w = Some r" and "\<not> file_closed w"
  shows "\<exists>w1 w'. waitForData bits w = Some w1 \<and> r = Inr w'
           \<and> gpio w' = gpio (clocked bits (resolution cfg) w1)
           \<and> ADC_file w' =
               (if threshold cfg < toVoltage cfg (raw_sample bits (shifted (gpio w1)) (resolution cfg))
                then ADC_file w @ [(PyStr now,
                       toVoltage cfg (raw_sample bits (shifted (gpio w1)) (resolution cfg)))]
                else ADC_file w)"
proof -
  from assms(1) obtain w1 where w1: "waitForData bits w = Some w1"
    and r: "r = record_sample cfg now
         (toVoltage cfg (raw_sample bits (shifted (gpio w1)) (resolution cfg)))
         (clocked bits (resolution cfg) w1)"
    by (auto simp: readADC_eq)
  from waitForData_returns [OF w1] obtain n where "w1 = clocked bits n w"
    by blast
  with assms(2) have "\<not> file_closed w1" "ADC_file w1 = ADC_file w"
    by simp_all
  with r w1 show ?thesis
    by (simp add: record_sample_def ADC_file_write_def print_def Let_def gpio_clocked)
qed

lemma raw_sample_4:
  "raw_sample bits p 4 = real (lvl (bits p)) * 8 + real (lvl (bits (p + 1))) * 4
     + real (lvl (bits (p + 2))) * 2 + real (lvl (bits (p + 3)))"
  by (simp add: raw_sample_def eval_nat_numeral lessThan_Suc)

lemma readADC_run:
  assumes "waitForData bits w = Some (clocked bits n w)"
    and "toVoltage cfg (raw_sample bits (shifted (gpio w) + n) (resolution cfg)) = v"
  shows "readADC cfg bits now w = Some (record_sample cfg now v (clocked bits (n + resolution cfg) w))"
  using assms by (simp add: readADC_eq shifted_clocked clocked_clocked)

lemma record_sample_start:
  "record_sample cfg now v (clocked bits n start) =
     Inr (if threshold cfg < v
          then start\<lparr>gpio := frame bits 0 n, ADC_file := [(PyStr now, v)], stdout := [Millivolts v]\<rparr>
          else start\<lparr>gpio := frame bits 0 n\<rparr>)"
  by (simp add: record_sample_def ADC_file_write_def print_def clocked_def start_def shifted_def)

theorem readADC_threshold_witness:
  "readADC \<lparr>vref = 3200, resolution = 4, offset = 0, threshold = 200\<rparr>
      (stream_of [LOW, LOW, LOW, LOW, LOW, LOW, HIGH, LOW]) ''t'' start
     = Some (Inr (start\<lparr>gpio := frame (stream_of [LOW, LOW, LOW, LOW, LOW, LOW, HIGH, LOW]) 0 8,
                        ADC_file := [(PyStr ''t'', 400)], stdout := [Millivolts 400]\<rparr>))
   \<and> readADC \<lparr>vref = 3200, resolution = 4, offset = 0, threshold = 200\<rparr>
      (stream_of [LOW, LOW, LOW, LOW, LOW, LOW, LOW, HIGH]) ''t'' start
     = Some (Inr (start\<lparr>gpio := frame (stream_of [LOW, LOW, LOW, LOW, LOW, LOW, LOW, HIGH]) 0 8\<rparr>))
   \<and> toVoltage \<lparr>vref = 3200, resolution = 4, offset = 0, threshold = 200\<rparr>
        (raw_sample (stream_of [LOW, LOW, LOW, LOW, LOW, LOW, LOW, HIGH]) 4 4) = 200"
proof -
  let ?cfg = "\<lparr>vref = 3200, resolution = 4, offset = 0, threshold = 200\<rparr>"
  let ?A = "stream_of [LOW, LOW, LOW, LOW, LOW, LOW, HIGH, LOW]"
  let ?B = "stream_of [LOW, LOW, LOW, LOW, LOW, LOW, LOW, HIGH]"
  have syncA: "waitForData ?A start = Some (clocked ?A 4 start)"
    by (simp add: waitForData_def while_hit shifted_start marker_def stream_of_def)
  have syncB: "waitForData ?B start = Some (clocked ?B 4 start)"
    by (simp add: waitForData_def while_hit shifted_start marker_def stream_of_def)
  have vA: "toVoltage ?cfg (raw_sample ?A 4 4) = 400"
    by (simp add: toVoltage_def raw_sample_4 stream_of_def)
  have vB: "toVoltage ?cfg (raw_sample ?B 4 4) = 200"
    by (simp add: toVoltage_def raw_sample_4 stream_of_def)
  have vA': "toVoltage ?cfg (raw_sample ?A (shifted (gpio start) + 4) (resolution ?cfg)) = 400"
    using vA by (simp add: shifted_start)
  have vB': "toVoltage ?cfg (raw_sample ?B (shifted (gpio start) + 4) (resolution ?cfg)) = 200"
    using vB by (simp add: shifted_start)
  have runA: "readADC ?cfg ?A ''t'' start
     = Some (Inr (start\<lparr>gpio := frame ?A 0 8, ADC_file := [(PyStr ''t'', 400)],
                        stdout := [Millivolts 400]\<rparr>))"
    by (simp add: readADC_run [OF syncA vA'] record_sample_start)
  have runB: "readADC ?cfg ?B ''t'' start = Some (Inr (start\<lparr>gpio := frame ?B 0 8\<rparr>))"
    by (simp add: readADC_run [OF syncB vB'] record_sample_start)
  have opened: "\<not> file_closed start"
    by (simp add: start_def)
  from readADC_threshold [OF runA opened] readADC_threshold [OF runB opened] runA runB vB
  show ?thesis
    by (intro conjI)
qed

text \<open>
  C2. One pass of \<open>readADC\<close> with resolution 4, reference 3300, offset 0 and threshold
  200 on the stream 1,0,0,0,0,1,0,1,1: \<open>waitForData\<close> returns after five bits, the four
  zeros being the second to fifth bit of the stream; the reader takes the bits 1,0,1,1;
  they make the number 11; the voltage is 11/16 of 3300, that is 2268.75; and the line is
  written.
\<close>

theorem readADC_end_to_end:
  "waitForData (stream_of [HIGH, LOW, LOW, LOW, LOW, HIGH, LOW, HIGH, HIGH]) start
     = Some (clocked (stream_of [HIGH, LOW, LOW, LOW, LOW, HIGH, LOW, HIGH, HIGH]) 5 start)
   \<and> marker (stream_of [HIGH, LOW, LOW, LOW, LOW, HIGH, LOW, HIGH, HIGH]) 1
   \<and> read_loop (stream_of [HIGH, LOW, LOW, LOW, LOW, HIGH, LOW, HIGH, HIGH]) 0 [0..<4]
        (clocked (stream_of [HIGH, LOW, LOW, LOW, LOW, HIGH, LOW, HIGH, HIGH]) 5 start)
     = Inr ([1, 0, 1, 1], clocked (stream_of [HIGH, LOW, LOW, LOW, LOW, HIGH, LOW, HIGH, HIGH]) 9 start)
   \<and> to_number 4 [1, 0, 1, 1] = Inr 11
   \<and> toVoltage \<lparr>vref = 3300, resolution = 4, offset = 0, threshold = 200\<rparr> 11 = 2268.75
   \<and> readADC \<lparr>vref = 3300, resolution = 4, offset = 0, threshold = 200\<rparr>
        (stream_of [HIGH, LOW, LOW, LOW, LOW, HIGH, LOW, HIGH, HIGH]) now start
     = Some (Inr (start\<lparr>gpio := frame (stream_of [HIGH, LOW, LOW, LOW, LOW, HIGH, LOW, HIGH, HIGH]) 0 9,
                        ADC_file := [(PyStr now, 2268.75)], stdout := [Millivolts 2268.75]\<rparr>))"
proof -
  let ?cfg = "\<lparr>vref = 3300, resolution = 4, offset = 0, threshold = 200\<rparr>"
  let ?S = "stream_of [HIGH, LOW, LOW, LOW, LOW, HIGH, LOW, HIGH, HIGH]"
  have sync: "waitForData ?S start = Some (clocked ?S 5 start)"
    by (simp add: waitForData_def while_skip while_hit shifted_clocked shifted_start
        clocked_clocked marker_def stream_of_def)
  have mark: "marker ?S 1"
    by (simp add: marker_def stream_of_def)
  have "map (\<lambda>i. lvl (?S (5 + i))) [0..<4] = [1, 0, 1, 1]"
    by (simp add: stream_of_def upt_conv_Cons)
  then have bits: "read_loop ?S 0 [0..<4] (clocked ?S 5 start) = Inr ([1, 0, 1, 1], clocked ?S 9 start)"
    by (simp add: read_loop_bits shifted_clocked shifted_start clocked_clocked del: upt_Suc)
  have num: "to_number 4 [1, 0, 1, 1] = Inr 11"
    by (simp add: to_number_def add_weighted_def upt_conv_Cons)
  have volt: "toVoltage ?cfg 11 = 2268.75"
    by (simp add: toVoltage_def)
  have raw: "raw_sample ?S 5 4 = 11"
    by (simp add: raw_sample_4 stream_of_def)
  have "toVoltage ?cfg (raw_sample ?S (shifted (gpio start) + 5) (resolution ?cfg)) = 2268.75"
    using raw volt by (simp add: shifted_start)
  from readADC_run [OF sync this]
  have run: "readADC ?cfg ?S now start
     = Some (Inr (start\<lparr>gpio := frame ?S 0 9, ADC_file := [(PyStr now, 2268.75)],
                        stdout := [Millivolts 2268.75]\<rparr>))"
    by (simp add: record_sample_start)
  from sync mark bits num volt run show ?thesis
    by (intro conjI)
qed

section \<open>The sample reader and the conversion\<close>

lemma sum_pow2_rev: "(\<Sum>i<W. (2::nat) ^ (W - 1 - i)) = 2 ^ W - 1"
proof -
  have "(\<Sum>i<W. (2::nat) ^ (W - 1 - i)) = (\<Sum>i<W. 2 ^ (W - Suc i))"
    by simp
  also have "\<dots> = (\<Sum>j<W. 2 ^ j)"
    by (rule sum.nat_diff_reindex)
  also have "\<dots> = 2 ^ W - 1"
    by (induction W) simp_all
  finally show ?thesis .
qed

lemma raw_sample_nat: "\<exists>n<2 ^ W. raw_sample bits p W = real n"
proof -
  let ?n = "\<Sum>i<W. lvl (bits (p + i)) * 2 ^ (W - 1 - i)"
  have "lvl l \<le> 1" for l
    by (cases l) simp_all
  then have "?n \<le> (\<Sum>i<W. 1 * 2 ^ (W - 1 - i))"
    by (intro sum_mono mult_le_mono1)
  also have "\<dots> = 2 ^ W - 1"
    using sum_pow2_rev [of W] by simp
  finally have "?n \<le> 2 ^ W - 1" .
  moreover have "(0::nat) < 2 ^ W"
    by simp
  ultimately have "?n < 2 ^ W"
    by arith
  moreover have "raw_sample bits p W = real ?n"
    by (simp add: raw_sample_def)
  ultimately show ?thesis by blast
qed





text \<open>
  C3. The read loop of \<open>readADC\<close> pulses the clock \<open>W\<close> times whatever the bits are,
  samples once after each pulse, and ends with the \<open>W\<close> bits in read order and no error.
  For a resolution of at most 53 bits, where the doubles of line 88 add without rounding,
  the number made of them is the sum of \<open>bit\<^sub>i * 2 ^ (W - 1 - i)\<close>, the first bit read
  being the most significant; it is a whole number below \<open>2 ^ 53\<close>; and every
  \<open>raw < 2 ^ W\<close> comes back from its \<open>W\<close>-bit encoding, most significant bit first.
\<close>

theorem readADC_msb_first:
  "read_loop bits 0 [0..<W] w
     = Inr (map (\<lambda>i. lvl (bits (shifted (gpio w) + i))) [0..<W], clocked bits W w)
   \<and> (\<forall>raw<2 ^ W. (\<forall>i<W. lvl (bits (shifted (gpio w) + i)) = msb_first W raw ! i) \<longrightarrow>
         read_loop bits 0 [0..<W] w = Inr (msb_first W raw, clocked bits W w))
   \<and> (W \<le> 53 \<longrightarrow>
         to_number W (map (\<lambda>i. lvl (bits (shifted (gpio w) + i))) [0..<W])
           = Inr (\<Sum>i<W. real (lvl (bits (shifted (gpio w) + i))) * 2 ^ (W - 1 - i))
         \<and> (\<exists>n<2 ^ 53. (\<Sum>i<W. real (lvl (bits (shifted (gpio w) + i))) * 2 ^ (W - 1 - i)) = real n)
         \<and> (\<forall>raw<2 ^ W. to_number W (msb_first W raw) = Inr (real raw)))"
proof (intro conjI allI impI)
  show "read_loop bits 0 [0..<W] w
     = Inr (map (\<lambda>i. lvl (bits (shifted (gpio w) + i))) [0..<W], clocked bits W w)"
    by (rule read_loop_bits)
next
  fix raw :: nat
  assume "raw < 2 ^ W" and same: "\<forall>i<W. lvl (bits (shifted (gpio w) + i)) = msb_first W raw ! i"
  have "map (\<lambda>i. lvl (bits (shifted (gpio w) + i))) [0..<W] = msb_first W raw"
    by (rule nth_equalityI) (simp_all add: same, simp add: msb_first_def)
  then show "read_loop bits 0 [0..<W] w = Inr (msb_first W raw, clocked bits W w)"
    by (simp only: read_loop_bits)
next
  show "to_number W (map (\<lambda>i. lvl (bits (shifted (gpio w) + i))) [0..<W])
     = Inr (\<Sum>i<W. real (lvl (bits (shifted (gpio w) + i))) * 2 ^ (W - 1 - i))"
    by (simp only: to_number_bits raw_sample_def)
next
  assume W: "W \<le> 53"
  from raw_sample_nat [of W bits "shifted (gpio w)"] obtain n
    where n: "n < 2 ^ W" "raw_sample bits (shifted (gpio w)) W = real n"
    by blast
  from W have "(2::nat) ^ W \<le> 2 ^ 53"
    by (intro power_increasing) simp_all
  with n(1) have "n < 2 ^ 53"
    by (rule less_le_trans)
  with n(2) show "\<exists>n<2 ^ 53. (\<Sum>i<W. real (lvl (bits (shifted (gpio w) + i))) * 2 ^ (W - 1 - i)) = real n"
    unfolding raw_sample_def by blast
next
  fix raw :: nat
  assume "raw < 2 ^ W"
  then show "to_number W (msb_first W raw) = Inr (real raw)"
    by (rule to_number_msb_first)
qed


theorem readADC_msb_first_witness:
  "msb_first 4 11 = [1, 0, 1, 1]
   \<and> read_loop (stream_of [HIGH, LOW, HIGH, HIGH]) 0 [0..<4] start
       = Inr ([1, 0, 1, 1], clocked (stream_of [HIGH, LOW, HIGH, HIGH]) 4 start)
   \<and> to_number 4 [1, 0, 1, 1] = Inr 11"
proof -
  let ?S = "stream_of [HIGH, LOW, HIGH, HIGH]"
  have enc: "msb_first 4 11 = [1, 0, 1, 1]"
    by (simp add: msb_first_def upt_conv_Cons)
  have small: "(11::nat) < 2 ^ 4"
    by simp
  have m: "map (\<lambda>i. lvl (?S (shifted (gpio start) + i))) [0..<4] = msb_first 4 11"
    by (simp add: enc shifted_start stream_of_def upt_conv_Cons)
  have same: "\<forall>i<4. lvl (?S (shifted (gpio start) + i)) = msb_first 4 11 ! i"
  proof (intro allI impI)
    fix i :: nat
    assume "i < 4"
    then have "map (\<lambda>i. lvl (?S (shifted (gpio start) + i))) [0..<4] ! i
        = lvl (?S (shifted (gpio start) + i))"
      by (simp del: upt_Suc)
    then show "lvl (?S (shifted (gpio start) + i)) = msb_first 4 11 ! i"
      by (simp only: m)
  qed
  have four: "(4::nat) \<le> 53"
    by simp
  from readADC_msb_first [of ?S 4 start] four
  have decode: "\<forall>raw<2 ^ 4. to_number 4 (msb_first 4 raw) = Inr (real raw)"
    by blast
  from readADC_msb_first [of ?S 4 start]
  have reader: "\<forall>raw<2 ^ 4. (\<forall>i<4. lvl (?S (shifted (gpio start) + i)) = msb_first 4 raw ! i) \<longrightarrow>
         read_loop ?S 0 [0..<4] start = Inr (msb_first 4 raw, clocked ?S 4 start)"
    by blast
  from decode small have "to_number 4 (msb_first 4 11) = Inr (real 11)"
    by blast
  moreover from reader small same
  have "read_loop ?S 0 [0..<4] start = Inr (msb_first 4 11, clocked ?S 4 start)"
    by blast
  ultimately show ?thesis
    by (simp add: enc)
qed






section \<open>The clock after each operation, and startup\<close>

lemma last_clock_append:
  "last_clock (xs @ ys) = (case last_clock ys of None \<Rightarrow> last_clock xs | Some l \<Rightarrow> Some l)"
proof (induction xs)
  case Nil
  show ?case by (simp split: option.split)
next
  case (Cons e xs)
  then show ?case by (cases e) (simp_all split: option.split)
qed

lemma last_clock_frame: "0 < n \<Longrightarrow> last_clock (frame bits p n) = Some HIGH"
  by (cases n) (simp_all add: frame_Suc last_clock_append)

lemma burst_Suc: "burst (Suc n) = burst n @ [Clock LOW, Clock HIGH]"
  by (induction n) (simp_all add: burst_def)

lemma last_clock_burst: "0 < n \<Longrightarrow> last_clock (burst n) = Some HIGH"
  by (cases n) (simp_all add: burst_Suc last_clock_append)

lemma shifted_burst: "shifted (burst n) = n"
  by (induction n) (simp_all add: burst_Suc shifted_append, simp_all add: shifted_def burst_def)

lemma flush_steps: "(flush_step ^^ n) w = w\<lparr>gpio := gpio w @ burst n\<rparr>"
proof (induction n)
  case 0
  show ?case by (simp add: burst_def)
next
  case (Suc n)
  then show ?case
    by (simp add: burst_Suc flush_step_def GPIO_output_def)
qed

lemma startADC_eq:
  "startADC bits w =
     map_option (\<lambda>w1. print ADC_started (w1\<lparr>gpio := gpio w1 @ burst 20\<rparr>))
       (waitForData bits (print Starting_ADC w))"
  by (cases "waitForData bits (print Starting_ADC w)") (simp_all add: startADC_def flush_steps)

lemma record_sample_gpio:
  "record_sample cfg now v w = Inr w' \<Longrightarrow> gpio w' = gpio w"
  by (auto simp: record_sample_def ADC_file_write_def print_def split: if_splits)

lemma readADC_gpio:
  assumes "readADC cfg bits now w = Some (Inr w')"
  shows "\<exists>n\<ge>4. gpio w' = gpio w @ frame bits (shifted (gpio w)) (n + resolution cfg)
           \<and> marker bits (shifted (gpio w) + n - 4)"
proof -
  from assms obtain w1 where w1: "waitForData bits w = Some w1"
    and r: "record_sample cfg now
         (toVoltage cfg (raw_sample bits (shifted (gpio w1)) (resolution cfg)))
         (clocked bits (resolution cfg) w1) = Inr w'"
    by (auto simp: readADC_eq)
  from waitForData_returns [OF w1] obtain n where n: "4 \<le> n" "w1 = clocked bits n w"
    "marker bits (shifted (gpio w) + n - 4)"
    by blast
  from record_sample_gpio [OF r] n(2)
  have "gpio w' = gpio w @ frame bits (shifted (gpio w)) (n + resolution cfg)"
    by (simp add: clocked_clocked gpio_clocked)
  with n show ?thesis by blast
qed

text \<open>
  C6. Whenever \<open>waitForData\<close>, \<open>readADC\<close> or \<open>startADC\<close> returns, on whatever stream,
  the last level commanded on the clock line is high.
\<close>

theorem idle_high:
  "(\<forall>w'. waitForData bits w = Some w' \<longrightarrow> last_clock (gpio w') = Some HIGH)
   \<and> (\<forall>w'. readADC cfg bits now w = Some (Inr w') \<longrightarrow> last_clock (gpio w') = Some HIGH)
   \<and> (\<forall>w'. startADC bits w = Some w' \<longrightarrow> last_clock (gpio w') = Some HIGH)"
proof (intro conjI allI impI)
  fix w'
  assume "waitForData bits w = Some w'"
  from waitForData_returns [OF this] show "last_clock (gpio w') = Some HIGH"
    by (auto simp: gpio_clocked last_clock_append last_clock_frame)
next
  fix w'
  assume "readADC cfg bits now w = Some (Inr w')"
  from readADC_gpio [OF this] show "last_clock (gpio w') = Some HIGH"
    by (auto simp: last_clock_append last_clock_frame)
next
  fix w'
  assume "startADC bits w = Some w'"
  then show "last_clock (gpio w') = Some HIGH"
    by (auto simp: startADC_eq print_def last_clock_append last_clock_burst)
qed

lemma waitForData_low: "waitForData (\<lambda>n. LOW) w = Some (clocked (\<lambda>n. LOW) 4 w)"
  by (simp add: waitForData_def while_hit marker_def)

theorem idle_high_witness:
  "waitForData (\<lambda>n. LOW) start = Some (clocked (\<lambda>n. LOW) 4 start)
   \<and> last_clock (gpio (clocked (\<lambda>n. LOW) 4 start)) = Some HIGH
   \<and> readADC defaults (\<lambda>n. LOW) ''t'' start = Some (Inr (clocked (\<lambda>n. LOW) 16 start))
   \<and> last_clock (gpio (clocked (\<lambda>n. LOW) 16 start)) = Some HIGH
   \<and> startADC (\<lambda>n. LOW) start
       = Some (start\<lparr>gpio := frame (\<lambda>n. LOW) 0 4 @ burst 20, stdout := [Starting_ADC, ADC_started]\<rparr>)
   \<and> last_clock (frame (\<lambda>n. LOW) 0 4 @ burst 20) = Some HIGH"
proof -
  let ?Z = "\<lambda>n::nat. LOW"
  have sync: "waitForData ?Z start = Some (clocked ?Z 4 start)"
    by (rule waitForData_low)
  have "toVoltage defaults (raw_sample ?Z (shifted (gpio start) + 4) (resolution defaults)) = 0"
    by (simp add: toVoltage_def raw_sample_def defaults_def)
  from readADC_run [OF sync this]
  have rd: "readADC defaults ?Z ''t'' start = Some (Inr (clocked ?Z 16 start))"
    by (simp add: record_sample_def defaults_def)
  have st: "startADC ?Z start
       = Some (start\<lparr>gpio := frame ?Z 0 4 @ burst 20, stdout := [Starting_ADC, ADC_started]\<rparr>)"
    by (simp add: startADC_eq waitForData_low print_def clocked_def)
       (simp add: start_def shifted_def)
  from idle_high [of ?Z start defaults "''t''"] sync rd st show ?thesis
    by simp
qed

text \<open>
  C7. \<open>startADC\<close> is one run of \<open>waitForData\<close> followed by 20 clock pulses with no
  sample of the data line, and 20 is at least twice the marker length 4. When it returns,
  the events it has added are the pulses and samples of \<open>waitForData\<close> and then the 20
  bare pulses; a later pass of \<open>readADC\<close> samples the stream only from the position after
  these 20 pulses on.
\<close>

theorem startADC_flush:
  "startADC bits w =
     map_option (\<lambda>w1. print ADC_started (w1\<lparr>gpio := gpio w1 @ burst 20\<rparr>))
       (waitForData bits (print Starting_ADC w))
   \<and> (\<forall>w1. startADC bits w = Some w1 \<longrightarrow>
         (\<exists>n\<ge>4. gpio w1 = gpio w @ frame bits (shifted (gpio w)) n @ burst 20
            \<and> shifted (gpio w1) = shifted (gpio w) + n + 20
            \<and> (\<forall>cfg now w2. readADC cfg bits now w1 = Some (Inr w2) \<longrightarrow>
                  (\<exists>m. gpio w2 = gpio w1 @ frame bits (shifted (gpio w) + n + 20) m))))"
proof (intro conjI allI impI)
  show "startADC bits w =
     map_option (\<lambda>w1. print ADC_started (w1\<lparr>gpio := gpio w1 @ burst 20\<rparr>))
       (waitForData bits (print Starting_ADC w))"
    by (rule startADC_eq)
next
  fix w1
  assume "startADC bits w = Some w1"
  then obtain w0 where sync: "waitForData bits (print Starting_ADC w) = Some w0"
    and w1: "w1 = print ADC_started (w0\<lparr>gpio := gpio w0 @ burst 20\<rparr>)"
    by (auto simp: startADC_eq)
  from waitForData_returns [OF sync] obtain n where n: "4 \<le> n"
    and w0: "w0 = clocked bits n (print Starting_ADC w)"
    by blast
  have trace: "gpio w1 = gpio w @ frame bits (shifted (gpio w)) n @ burst 20"
    by (simp add: w1 w0 print_def gpio_clocked)
  then have pos: "shifted (gpio w1) = shifted (gpio w) + n + 20"
    by (simp add: shifted_append shifted_frame shifted_burst)
  have later: "\<exists>m. gpio w2 = gpio w1 @ frame bits (shifted (gpio w) + n + 20) m"
    if "readADC cfg bits now w1 = Some (Inr w2)" for cfg now w2
    using readADC_gpio [OF that] unfolding pos by blast
  from n trace pos later
  show "\<exists>n\<ge>4. gpio w1 = gpio w @ frame bits (shifted (gpio w)) n @ burst 20
            \<and> shifted (gpio w1) = shifted (gpio w) + n + 20
            \<and> (\<forall>cfg now w2. readADC cfg bits now w1 = Some (Inr w2) \<longrightarrow>
                  (\<exists>m. gpio w2 = gpio w1 @ frame bits (shifted (gpio w) + n + 20) m))"
    by blast
qed

lemma startADC_low_start:
  assumes "marker bits 0"
  shows "startADC bits start
       = Some (start\<lparr>gpio := frame bits 0 4 @ burst 20, stdout := [Starting_ADC, ADC_started]\<rparr>)"
proof -
  have "shifted (gpio (print Starting_ADC start)) = 0"
    by (simp add: print_def start_def shifted_def)
  with assms have "waitForData bits (print Starting_ADC start)
      = Some (clocked bits 4 (print Starting_ADC start))"
    by (simp add: waitForData_def while_hit)
  then show ?thesis
    by (simp add: startADC_eq print_def clocked_def) (simp add: start_def shifted_def)
qed

lemma readADC_after_startup:
  assumes "marker bits 24"
    and "toVoltage cfg (raw_sample bits 28 (resolution cfg)) = v"
    and "threshold cfg < v"
  shows "readADC cfg bits now
       (start\<lparr>gpio := frame bits 0 4 @ burst 20, stdout := [Starting_ADC, ADC_started]\<rparr>)
     = Some (Inr (start\<lparr>gpio := frame bits 0 4 @ burst 20 @ frame bits 24 (4 + resolution cfg),
          ADC_file := [(PyStr now, v)],
          stdout := [Starting_ADC, ADC_started, Millivolts v]\<rparr>))"
proof -
  let ?w = "start\<lparr>gpio := frame bits 0 4 @ burst 20, stdout := [Starting_ADC, ADC_started]\<rparr>"
  have pos: "shifted (gpio ?w) = 24"
    by (simp add: shifted_append shifted_frame shifted_burst)
  with assms(1) have sync: "waitForData bits ?w = Some (clocked bits 4 ?w)"
    by (simp add: waitForData_def while_hit)
  from assms(2) pos
  have "toVoltage cfg (raw_sample bits (shifted (gpio ?w) + 4) (resolution cfg)) = v"
    by simp
  from readADC_run [OF sync this] assms(3) pos show ?thesis
    by (simp add: record_sample_def ADC_file_write_def print_def clocked_def)
       (simp add: start_def)
qed

theorem startADC_flush_witness:
  "startADC (\<lambda>n. if n = 28 \<or> n = 30 \<or> n = 31 then HIGH else LOW) start
     = Some (start\<lparr>gpio := frame (\<lambda>n. if n = 28 \<or> n = 30 \<or> n = 31 then HIGH else LOW) 0 4 @ burst 20,
                   stdout := [Starting_ADC, ADC_started]\<rparr>)
   \<and> readADC \<lparr>vref = 3300, resolution = 4, offset = 0, threshold = 200\<rparr>
       (\<lambda>n. if n = 28 \<or> n = 30 \<or> n = 31 then HIGH else LOW) ''t''
       (start\<lparr>gpio := frame (\<lambda>n. if n = 28 \<or> n = 30 \<or> n = 31 then HIGH else LOW) 0 4 @ burst 20,
              stdout := [Starting_ADC, ADC_started]\<rparr>)
     = Some (Inr (start\<lparr>gpio := frame (\<lambda>n. if n = 28 \<or> n = 30 \<or> n = 31 then HIGH else LOW) 0 4
              @ burst 20 @ frame (\<lambda>n. if n = 28 \<or> n = 30 \<or> n = 31 then HIGH else LOW) 24 8,
          ADC_file := [(PyStr ''t'', 2268.75)],
          stdout := [Starting_ADC, ADC_started, Millivolts 2268.75]\<rparr>))
   \<and> (\<exists>n\<ge>4. frame (\<lambda>n. if n = 28 \<or> n = 30 \<or> n = 31 then HIGH else LOW) 0 4 @ burst 20
          = gpio start @ frame (\<lambda>n. if n = 28 \<or> n = 30 \<or> n = 31 then HIGH else LOW)
               (shifted (gpio start)) n @ burst 20
        \<and> (\<exists>m. frame (\<lambda>n. if n = 28 \<or> n = 30 \<or> n = 31 then HIGH else LOW) 0 4
              @ burst 20 @ frame (\<lambda>n. if n = 28 \<or> n = 30 \<or> n = 31 then HIGH else LOW) 24 8
            = (frame (\<lambda>n. if n = 28 \<or> n = 30 \<or> n = 31 then HIGH else LOW) 0 4 @ burst 20)
              @ frame (\<lambda>n. if n = 28 \<or> n = 30 \<or> n = 31 then HIGH else LOW)
                  (shifted (gpio start) + n + 20) m))"
proof -
  let ?S = "\<lambda>n::nat. if n = 28 \<or> n = 30 \<or> n = 31 then HIGH else LOW"
  let ?cfg = "\<lparr>vref = 3300, resolution = 4, offset = 0, threshold = 200\<rparr>"
  let ?w1 = "start\<lparr>gpio := frame ?S 0 4 @ burst 20, stdout := [Starting_ADC, ADC_started]\<rparr>"
  let ?w2 = "start\<lparr>gpio := frame ?S 0 4 @ burst 20 @ frame ?S 24 8,
          ADC_file := [(PyStr ''t'', 2268.75)],
          stdout := [Starting_ADC, ADC_started, Millivolts 2268.75]\<rparr>"
  have st: "startADC ?S start = Some ?w1"
    by (rule startADC_low_start) (simp add: marker_def)
  have m: "marker ?S 24"
    by (simp add: marker_def)
  have v: "toVoltage ?cfg (raw_sample ?S 28 (resolution ?cfg)) = 2268.75"
    by (simp add: toVoltage_def raw_sample_4)
  have rd: "readADC ?cfg ?S ''t'' ?w1 = Some (Inr ?w2)"
    using readADC_after_startup [of ?S ?cfg "2268.75" "''t''", OF m v] by simp
  from startADC_flush [of ?S start] st
  obtain n where n: "4 \<le> n" "gpio ?w1 = gpio start @ frame ?S (shifted (gpio start)) n @ burst 20"
    and later: "\<forall>cfg now w2. readADC cfg ?S now ?w1 = Some (Inr w2) \<longrightarrow>
                  (\<exists>m. gpio w2 = gpio ?w1 @ frame ?S (shifted (gpio start) + n + 20) m)"
    by blast
  from later rd have "\<exists>m. gpio ?w2 = gpio ?w1 @ frame ?S (shifted (gpio start) + n + 20) m"
    by blast
  with n have "\<exists>n\<ge>4. gpio ?w1 = gpio start @ frame ?S (shifted (gpio start)) n @ burst 20
      \<and> (\<exists>m. gpio ?w2 = gpio ?w1 @ frame ?S (shifted (gpio start) + n + 20) m)"
    by blast
  then have "\<exists>n\<ge>4. frame ?S 0 4 @ burst 20 = gpio start @ frame ?S (shifted (gpio start)) n @ burst 20
      \<and> (\<exists>m. frame ?S 0 4 @ burst 20 @ frame ?S 24 8
            = (frame ?S 0 4 @ burst 20) @ frame ?S (shifted (gpio start) + n + 20) m)"
    by simp
  with st rd show ?thesis
    by (intro conjI)
qed

section \<open>The except block of main\<close>

text \<open>
  C8. The \<open>except\<close> block reads \<open>dt_string\<close> and \<open>validData\<close>, which are local to
  \<open>readADC\<close> and not bound in the module: in every state it raises \<open>NameError\<close> before
  anything is written or closed. So it does in the run interrupted after one whole pass,
  where a sample has been computed and recorded, and in the run interrupted before the first
  pass.
\<close>

theorem except_handler_NameError:
  "except_handler module_globals w = Inl (NameError ''dt_string'', w)
   \<and> main \<lparr>vref = 3300, resolution = 4, offset = 0, threshold = 200\<rparr>
       (\<lambda>n. if n = 28 \<or> n = 30 \<or> n = 31 then HIGH else LOW) (\<lambda>k. ''t'') 1 start
     = Some (Inl (NameError ''dt_string'',
          start\<lparr>gpio := frame (\<lambda>n. if n = 28 \<or> n = 30 \<or> n = 31 then HIGH else LOW) 0 4
              @ burst 20 @ frame (\<lambda>n. if n = 28 \<or> n = 30 \<or> n = 31 then HIGH else LOW) 24 8,
          ADC_file := [(PyStr ''t'', 2268.75)],
          stdout := [Starting_ADC, ADC_started, Millivolts 2268.75]\<rparr>))
   \<and> main \<lparr>vref = 3300, resolution = 4, offset = 0, threshold = 200\<rparr>
       (\<lambda>n. if n = 28 \<or> n = 30 \<or> n = 31 then HIGH else LOW) (\<lambda>k. ''t'') 0 start
     = Some (Inl (NameError ''dt_string'',
          start\<lparr>gpio := frame (\<lambda>n. if n = 28 \<or> n = 30 \<or> n = 31 then HIGH else LOW) 0 4 @ burst 20,
                stdout := [Starting_ADC, ADC_started]\<rparr>))"
proof -
  let ?S = "\<lambda>n::nat. if n = 28 \<or> n = 30 \<or> n = 31 then HIGH else LOW"
  let ?cfg = "\<lparr>vref = 3300, resolution = 4, offset = 0, threshold = 200\<rparr>"
  let ?w1 = "start\<lparr>gpio := frame ?S 0 4 @ burst 20, stdout := [Starting_ADC, ADC_started]\<rparr>"
  have handler: "except_handler module_globals w = Inl (NameError ''dt_string'', w)" for w
    by (simp add: except_handler_def load_global_def module_globals_def)
  have st: "startADC ?S start = Some ?w1"
    by (rule startADC_low_start) (simp add: marker_def)
  have m: "marker ?S 24"
    by (simp add: marker_def)
  have v: "toVoltage ?cfg (raw_sample ?S 28 (resolution ?cfg)) = 2268.75"
    by (simp add: toVoltage_def raw_sample_4)
  note rd = readADC_after_startup [of ?S ?cfg "2268.75" "''t''", OF m v]
  have one: "main ?cfg ?S (\<lambda>k. ''t'') 1 start
     = Some (Inl (NameError ''dt_string'',
          start\<lparr>gpio := frame ?S 0 4 @ burst 20 @ frame ?S 24 8,
          ADC_file := [(PyStr ''t'', 2268.75)],
          stdout := [Starting_ADC, ADC_started, Millivolts 2268.75]\<rparr>))"
    using rd by (simp add: main_def st handler)
  have none: "main ?cfg ?S (\<lambda>k. ''t'') 0 start = Some (Inl (NameError ''dt_string'', ?w1))"
    by (simp add: main_def st handler)
  from handler one none show ?thesis
    by (intro conjI)
qed

end
